theory Spec2Isabelle
  imports Complex_Main
begin

section \<open>JavaScript values reaching the tool\<close>

text \<open>
  The arguments of a tool call arrive as an untyped value (\<^verbatim>\<open>unknown\<close> in
  \<^verbatim>\<open>isValidCompletionArgs\<close>). Numbers are only compared by type and passed on,
  never computed with, so a JavaScript number is carried as a real.
\<close>

type_synonym number = real

datatype jsvalue =
    JUndefined
  | JNull
  | JBool bool
  | JNumber number
  | JString string
  | JArray "jsvalue list"
  | JObject "(string \<times> jsvalue) list"

text \<open>The \<^verbatim>\<open>typeof\<close> operator: \<^verbatim>\<open>null\<close> and arrays are objects.\<close>

fun typeof :: "jsvalue \<Rightarrow> string" where
  "typeof JUndefined = ''undefined''"
| "typeof JNull = ''object''"
| "typeof (JBool b) = ''boolean''"
| "typeof (JNumber n) = ''number''"
| "typeof (JString s) = ''string''"
| "typeof (JArray xs) = ''object''"
| "typeof (JObject fs) = ''object''"

text \<open>
  Reading a named property, \<^verbatim>\<open>candidate[param]\<close>: a missing property reads as
  \<^verbatim>\<open>undefined\<close>. The source reads only the six parameter names, none of which an
  array or a primitive has; it never reads a property of \<^verbatim>\<open>null\<close> or
  \<^verbatim>\<open>undefined\<close>, which the first test of the validator turns away.
\<close>

fun get_prop :: "jsvalue \<Rightarrow> string \<Rightarrow> jsvalue" where
  "get_prop (JObject fs) k = (case map_of fs k of None \<Rightarrow> JUndefined | Some v \<Rightarrow> v)"
| "get_prop v k = JUndefined"

section \<open>constants.ts\<close>

definition DEFAULT_MODEL :: string where
  "DEFAULT_MODEL = ''text-davinci-003''"

definition DEFAULT_MAX_TOKENS :: number where
  "DEFAULT_MAX_TOKENS = 150"

definition DEFAULT_TEMPERATURE :: number where
  "DEFAULT_TEMPERATURE = 0.7"

definition DEFAULT_TOP_P :: number where
  "DEFAULT_TOP_P = 1.0"

definition DEFAULT_FREQUENCY_PENALTY :: number where
  "DEFAULT_FREQUENCY_PENALTY = 0.0"

definition DEFAULT_PRESENCE_PENALTY :: number where
  "DEFAULT_PRESENCE_PENALTY = 0.0"

definition COMPLETION_TIMEOUT_MS :: nat where
  "COMPLETION_TIMEOUT_MS = 60000"

section \<open>utils.ts: the parameter validator\<close>

definition optionalNumericParams :: "string list" where
  "optionalNumericParams =
     [''max_tokens'', ''temperature'', ''top_p'', ''frequency_penalty'', ''presence_penalty'']"

text \<open>The \<^verbatim>\<open>for (const param of optionalNumericParams)\<close> loop, with its early return.\<close>

fun check_params :: "jsvalue \<Rightarrow> string list \<Rightarrow> bool" where
  "check_params candidate [] = True"
| "check_params candidate (param # params) =
     (if get_prop candidate param \<noteq> JUndefined \<and> typeof (get_prop candidate param) \<noteq> ''number''
      then False
      else check_params candidate params)"

definition isValidCompletionArgs :: "jsvalue \<Rightarrow> bool" where
  "isValidCompletionArgs args =
     (if typeof args \<noteq> ''object'' \<or> args = JNull then False
      else if typeof (get_prop args ''prompt'') \<noteq> ''string'' then False
      else check_params args optionalNumericParams)"

section \<open>types.ts\<close>

datatype CompletionStatusEnum = Pending | Processing | Complete | Error

record Usage =
  prompt_tokens :: number
  completion_tokens :: number
  total_tokens :: number

text \<open>\<^verbatim>\<open>CompletionResponse\<close>: the normalised success payload.\<close>

record CompletionResponse =
  text_r :: string
  model_r :: string
  finish_reason :: "string option"
  usage :: "Usage option"

text \<open>
  \<^verbatim>\<open>CompletionTask\<close>. The \<^verbatim>\<open>AbortController\<close> is an object shared between the
  task and the local variable of \<^verbatim>\<open>complete\<close>; the task holds its address in a store
  of abort flags.
\<close>

record CompletionTask =
  status :: CompletionStatusEnum
  result :: "CompletionResponse option"
  error :: "string option"
  created_at :: nat
  timeout_at :: nat
  progress :: nat
  abortController :: nat

datatype ErrorCode = InvalidRequest | MethodNotFound | InvalidParams

text \<open>
  Values that can be thrown. \<^verbatim>\<open>CompletionTimeoutError\<close>, \<^verbatim>\<open>CompletionCancelledError\<close>
  and \<^verbatim>\<open>McpError\<close> are subclasses of \<^verbatim>\<open>Error\<close>, each given by the arguments of its
  constructor; \<open>OtherError\<close> is any other instance of \<^verbatim>\<open>Error\<close>, with its name and
  its message; \<open>NonError\<close> is a thrown value that is not an \<^verbatim>\<open>Error\<close>, given by its
  \<^verbatim>\<open>String(...)\<close> rendering.
\<close>

datatype js_error =
    CompletionTimeoutError string
  | CompletionCancelledError string
  | McpError ErrorCode string
  | OtherError string string
  | NonError string

fun instanceof_Error :: "js_error \<Rightarrow> bool" where
  "instanceof_Error (NonError v) = False"
| "instanceof_Error e = True"

fun instanceof_CompletionTimeoutError :: "js_error \<Rightarrow> bool" where
  "instanceof_CompletionTimeoutError (CompletionTimeoutError m) = True"
| "instanceof_CompletionTimeoutError e = False"

fun instanceof_CompletionCancelledError :: "js_error \<Rightarrow> bool" where
  "instanceof_CompletionCancelledError (CompletionCancelledError m) = True"
| "instanceof_CompletionCancelledError e = False"

text \<open>The numeric value of an \<^verbatim>\<open>ErrorCode\<close> of the protocol library, as it is printed.\<close>

fun code_of :: "ErrorCode \<Rightarrow> string" where
  "code_of InvalidRequest = ''-32600''"
| "code_of MethodNotFound = ''-32601''"
| "code_of InvalidParams = ''-32602''"

text \<open>
  \<^verbatim>\<open>error.message\<close> and \<^verbatim>\<open>error.name\<close>. An \<^verbatim>\<open>McpError\<close> built from a code and a
  text has the message \<^verbatim>\<open>MCP error <code>: <text>\<close>, which the library's constructor
  composes. The source reads the message only behind an \<^verbatim>\<open>instanceof Error\<close> test; the
  value given for a non-error is never used.
\<close>

fun message :: "js_error \<Rightarrow> string" where
  "message (CompletionTimeoutError m) = m"
| "message (CompletionCancelledError m) = m"
| "message (McpError c m) = ''MCP error '' @ code_of c @ '': '' @ m"
| "message (OtherError n m) = m"
| "message (NonError v) = []"

fun name_of :: "js_error \<Rightarrow> string" where
  "name_of (CompletionTimeoutError m) = ''CompletionTimeoutError''"
| "name_of (CompletionCancelledError m) = ''CompletionCancelledError''"
| "name_of (McpError c m) = ''McpError''"
| "name_of (OtherError n m) = n"
| "name_of (NonError v) = []"

text \<open>\<^verbatim>\<open>String(error)\<close>: for an \<^verbatim>\<open>Error\<close>, its name and message joined.\<close>

fun String_of :: "js_error \<Rightarrow> string" where
  "String_of (NonError v) = v"
| "String_of e =
     (if name_of e = [] then message e
      else if message e = [] then name_of e
      else name_of e @ '': '' @ message e)"

text \<open>The constructors called without an argument take their default message.\<close>

definition new_CompletionTimeoutError :: js_error where
  "new_CompletionTimeoutError = CompletionTimeoutError ''OpenAI API request timed out''"

definition new_CompletionCancelledError :: js_error where
  "new_CompletionCancelledError = CompletionCancelledError ''OpenAI API request was cancelled''"

section \<open>The outbound completion API\<close>

text \<open>
  The body handed to \<^verbatim>\<open>openai.completions.create\<close>, with the abort signal of the
  second argument. The generation parameters are passed as the values they are.
\<close>

record CompletionCreateParams =
  model_p :: string
  prompt :: jsvalue
  max_tokens :: jsvalue
  temperature :: jsvalue
  top_p :: jsvalue
  frequency_penalty :: jsvalue
  presence_penalty :: jsvalue
  signal :: nat

text \<open>
  The upstream response as far as \<^verbatim>\<open>complete\<close> reads it. A choice's text and finish
  reason may be missing (\<^verbatim>\<open>null\<close> or absent), and so may the usage block.
\<close>

record CompletionChoice =
  text_c :: "string option"
  finish_reason_c :: "string option"

record Completion =
  choices :: "CompletionChoice list"
  usage_u :: "Usage option"

section \<open>index.ts: the server\<close>

datatype timer_cb = TimeoutCb string | CleanupCb string

text \<open>What the caller of the tool gets: a text content item, or a thrown (protocol-level) error.\<close>

datatype tool_reply = Content string | Thrown js_error

text \<open>
  A suspended call of \<^verbatim>\<open>handleCompleteTool\<close>/\<^verbatim>\<open>complete\<close>: its local abort
  controller, the outbound call it issued, whether the outbound promise and the
  \<^verbatim>\<open>Promise.race\<close> have settled, and the reply once the handler has returned.
\<close>

record invocation =
  abortController_l :: nat
  call :: CompletionCreateParams
  api_settled :: bool
  race_settled :: bool
  reply :: "tool_reply option"

text \<open>
  The server object with its environment: the configured model, the \<^verbatim>\<open>activeTasks\<close>
  map, the abort flags of the controllers allocated so far, the clock read by
  \<^verbatim>\<open>Date.now()\<close>, the pending \<^verbatim>\<open>setTimeout\<close> callbacks with the time they are due,
  and the suspended calls by task id.
\<close>

record server =
  model :: string
  activeTasks :: "string \<rightharpoonup> CompletionTask"
  aborted :: "nat \<Rightarrow> bool"
  next_controller :: nat
  now :: nat
  timers :: "(nat \<times> timer_cb) list"
  invocations :: "string \<rightharpoonup> invocation"

definition init :: "string \<Rightarrow> nat \<Rightarrow> server" where
  "init m t0 =
     \<lparr>model = m, activeTasks = Map.empty, aborted = (\<lambda>a. False), next_controller = 0,
      now = t0, timers = [], invocations = Map.empty\<rparr>"

definition setTimeout :: "server \<Rightarrow> timer_cb \<Rightarrow> nat \<Rightarrow> server" where
  "setTimeout s cb ms = s\<lparr>timers := timers s @ [(now s + ms, cb)]\<rparr>"

text \<open>A destructuring default applies exactly when the property reads as \<^verbatim>\<open>undefined\<close>.\<close>

definition js_default :: "jsvalue \<Rightarrow> jsvalue \<Rightarrow> jsvalue" where
  "js_default v d = (if v = JUndefined then d else v)"

definition makeApiCall ::
  "server \<Rightarrow> jsvalue \<Rightarrow> jsvalue \<Rightarrow> jsvalue \<Rightarrow> jsvalue \<Rightarrow> jsvalue \<Rightarrow> jsvalue \<Rightarrow> nat
     \<Rightarrow> CompletionCreateParams" where
  "makeApiCall s prompt' max_tokens' temperature' top_p' frequency_penalty' presence_penalty' signal' =
     \<lparr>model_p = model s, prompt = prompt', max_tokens = max_tokens', temperature = temperature',
      top_p = top_p', frequency_penalty = frequency_penalty', presence_penalty = presence_penalty',
      signal = signal'\<rparr>"

definition createTimeoutPromise :: "server \<Rightarrow> string \<Rightarrow> server" where
  "createTimeoutPromise s taskId = setTimeout s (TimeoutCb taskId) COMPLETION_TIMEOUT_MS"

text \<open>
  The callback of \<^verbatim>\<open>createTimeoutPromise\<close>, up to its \<^verbatim>\<open>reject\<close>: it marks the
  task whenever the map still has it.
\<close>

definition timeout_callback :: "server \<Rightarrow> string \<Rightarrow> server" where
  "timeout_callback s taskId =
     (case activeTasks s taskId of
        None \<Rightarrow> s
      | Some task \<Rightarrow>
          s\<lparr>activeTasks := (activeTasks s)(taskId \<mapsto>
               task\<lparr>status := Error, error := Some ''Completion timed out''\<rparr>)\<rparr>)"

text \<open>
  \<^verbatim>\<open>complete\<close>, lines 212 to 224: a fresh controller and the Pending task, stored
  under the task id. The task object and the state are returned.
\<close>

definition complete_init :: "server \<Rightarrow> string \<Rightarrow> CompletionTask \<times> server" where
  "complete_init s taskId =
     (let abortController' = next_controller s;
          s1 = s\<lparr>next_controller := Suc abortController',
                 aborted := (aborted s)(abortController' := False)\<rparr>;
          task = \<lparr>status = Pending, result = None, error = None, created_at = now s1,
                  timeout_at = now s1 + COMPLETION_TIMEOUT_MS, progress = 0,
                  abortController = abortController'\<rparr>
      in (task, s1\<lparr>activeTasks := (activeTasks s1)(taskId \<mapsto> task)\<rparr>))"

text \<open>
  Lines 203 to 210 and 226 to 237: the defaults for the absent parameters, the task set to
  Processing, the outbound call and the timer, up to the \<^verbatim>\<open>await\<close>.
\<close>

definition complete_start :: "server \<Rightarrow> string \<Rightarrow> jsvalue \<Rightarrow> CompletionTask \<Rightarrow> server" where
  "complete_start s taskId args task =
     (let prompt' = get_prop args ''prompt'';
          max_tokens' = js_default (get_prop args ''max_tokens'') (JNumber DEFAULT_MAX_TOKENS);
          temperature' = js_default (get_prop args ''temperature'') (JNumber DEFAULT_TEMPERATURE);
          top_p' = js_default (get_prop args ''top_p'') (JNumber DEFAULT_TOP_P);
          frequency_penalty' =
            js_default (get_prop args ''frequency_penalty'') (JNumber DEFAULT_FREQUENCY_PENALTY);
          presence_penalty' =
            js_default (get_prop args ''presence_penalty'') (JNumber DEFAULT_PRESENCE_PENALTY);
          s1 = s\<lparr>activeTasks := (activeTasks s)(taskId \<mapsto> task\<lparr>status := Processing\<rparr>)\<rparr>;
          c = makeApiCall s1 prompt' max_tokens' temperature' top_p' frequency_penalty'
                presence_penalty' (abortController task);
          s2 = createTimeoutPromise s1 taskId
      in s2\<lparr>invocations := (invocations s2)(taskId \<mapsto>
              \<lparr>abortController_l = abortController task, call = c, api_settled = False,
               race_settled = False, reply = None\<rparr>)\<rparr>)"

definition complete_begin :: "server \<Rightarrow> string \<Rightarrow> jsvalue \<Rightarrow> server" where
  "complete_begin s taskId args =
     (case complete_init s taskId of (task, s1) \<Rightarrow> complete_start s1 taskId args task)"

text \<open>
  The message of the \<^verbatim>\<open>TypeError\<close> that reading \<^verbatim>\<open>.text\<close> of an absent first choice
  raises (the wording is the engine's).
\<close>

definition undefined_read_message :: string where
  "undefined_read_message =
     ''Cannot read properties of undefined (reading '' @ [CHR 0x27] @ ''text'' @ [CHR 0x27] @ '')''"

text \<open>\<^verbatim>\<open>x || ''\<close> and \<^verbatim>\<open>x || undefined\<close> on a string that may be missing: the empty
  string is falsy too.\<close>

definition or_empty :: "string option \<Rightarrow> string" where
  "or_empty x = (case x of None \<Rightarrow> [] | Some t \<Rightarrow> if t = [] then [] else t)"

definition or_undefined :: "string option \<Rightarrow> string option" where
  "or_undefined x = (case x of None \<Rightarrow> None | Some t \<Rightarrow> if t = [] then None else Some t)"

text \<open>Lines 240 to 253: the result built from the response, or the error of reading
  \<^verbatim>\<open>choices[0]\<close> when there is none.\<close>

definition build_result :: "server \<Rightarrow> Completion \<Rightarrow> js_error + CompletionResponse" where
  "build_result s response =
     (case choices response of
        [] \<Rightarrow> Inl (OtherError ''TypeError'' undefined_read_message)
      | c # cs \<Rightarrow>
          (let completionResult =
                 \<lparr>text_r = or_empty (text_c c), model_r = model s,
                  finish_reason = or_undefined (finish_reason_c c), usage = None\<rparr>
           in case usage_u response of
                None \<Rightarrow> Inr completionResult
              | Some u \<Rightarrow>
                  Inr (completionResult\<lparr>usage :=
                         Some \<lparr>prompt_tokens = prompt_tokens u,
                               completion_tokens = completion_tokens u,
                               total_tokens = total_tokens u\<rparr>\<rparr>)))"

text \<open>Lines 239 to 266, the rest of the \<^verbatim>\<open>try\<close> block once the race has been won by
  the response.\<close>

definition complete_try ::
  "server \<Rightarrow> string \<Rightarrow> Completion \<Rightarrow> js_error + (server \<times> CompletionResponse)" where
  "complete_try s taskId response =
     (case build_result s response of
        Inl e \<Rightarrow> Inl e
      | Inr completionResult \<Rightarrow>
          (case activeTasks s taskId of
             None \<Rightarrow> Inr (s, completionResult)
           | Some updatedTask \<Rightarrow>
               Inr (s\<lparr>activeTasks := (activeTasks s)(taskId \<mapsto>
                        updatedTask\<lparr>status := Complete, result := Some completionResult,
                                    progress := 100\<rparr>)\<rparr>,
                    completionResult)))"

text \<open>Lines 267 to 287, the \<^verbatim>\<open>catch\<close> block: the state it leaves and the error it throws.\<close>

definition complete_catch :: "server \<Rightarrow> string \<Rightarrow> nat \<Rightarrow> js_error \<Rightarrow> server \<times> js_error" where
  "complete_catch s taskId abortController' e =
     (let s1 = (case activeTasks s taskId of
                  None \<Rightarrow> s
                | Some updatedTask \<Rightarrow>
                    s\<lparr>activeTasks := (activeTasks s)(taskId \<mapsto>
                         updatedTask\<lparr>status := Error,
                                     error := Some (if instanceof_Error e then message e
                                                    else ''Unknown error'')\<rparr>)\<rparr>)
      in if instanceof_CompletionTimeoutError e \<or> instanceof_CompletionCancelledError e
         then (s1, e)
         else if aborted s1 abortController' then (s1, new_CompletionCancelledError)
         else (s1, McpError InvalidRequest
                     (''OpenAI API error: '' @
                        (if instanceof_Error e then message e else String_of e))))"

text \<open>Lines 288 to 293, the \<^verbatim>\<open>finally\<close> block.\<close>

definition complete_finally :: "server \<Rightarrow> string \<Rightarrow> server" where
  "complete_finally s taskId = setTimeout s (CleanupCb taskId) COMPLETION_TIMEOUT_MS"

text \<open>\<^verbatim>\<open>complete\<close> resumed after the \<^verbatim>\<open>await\<close>, when the race is fulfilled with a
  response or rejected with an error: the state left and what \<^verbatim>\<open>complete\<close> returns or
  throws.\<close>

definition complete_fulfilled ::
  "server \<Rightarrow> string \<Rightarrow> nat \<Rightarrow> Completion \<Rightarrow> server \<times> (js_error + CompletionResponse)" where
  "complete_fulfilled s taskId abortController' response =
     (case complete_try s taskId response of
        Inr (s1, completionResult) \<Rightarrow> (complete_finally s1 taskId, Inr completionResult)
      | Inl e \<Rightarrow>
          (case complete_catch s taskId abortController' e of
             (s1, e') \<Rightarrow> (complete_finally s1 taskId, Inl e')))"

definition complete_rejected ::
  "server \<Rightarrow> string \<Rightarrow> nat \<Rightarrow> js_error \<Rightarrow> server \<times> (js_error + CompletionResponse)" where
  "complete_rejected s taskId abortController' e =
     (case complete_catch s taskId abortController' e of
        (s1, e') \<Rightarrow> (complete_finally s1 taskId, Inl e'))"

text \<open>\<^verbatim>\<open>handleCompleteTool\<close>, lines 152 to 161: the validation and the start of the task
  under the identifier that \<^verbatim>\<open>uuidv4()\<close> returned.\<close>

definition handleCompleteTool_begin :: "server \<Rightarrow> string \<Rightarrow> jsvalue \<Rightarrow> js_error + server" where
  "handleCompleteTool_begin s uuid args =
     (if \<not> isValidCompletionArgs args
      then Inl (McpError InvalidParams ''Invalid completion arguments'')
      else Inr (complete_begin s uuid args))"

text \<open>Lines 163 to 196: what the handler makes of the outcome of \<^verbatim>\<open>complete\<close>.\<close>

definition timeout_text :: string where
  "timeout_text =
     ''The completion request timed out. Please try again with a shorter prompt or fewer tokens.''"

definition cancelled_text :: string where
  "cancelled_text = ''The request was cancelled.''"

definition handleCompleteTool_reply :: "js_error + CompletionResponse \<Rightarrow> tool_reply" where
  "handleCompleteTool_reply outcome =
     (case outcome of
        Inr r \<Rightarrow> Content (text_r r)
      | Inl e \<Rightarrow>
          if instanceof_CompletionTimeoutError e then Content timeout_text
          else if instanceof_CompletionCancelledError e then Content cancelled_text
          else Thrown e)"

definition cancelTask :: "server \<Rightarrow> string \<Rightarrow> bool \<times> server" where
  "cancelTask s taskId =
     (case activeTasks s taskId of
        None \<Rightarrow> (False, s)
      | Some task \<Rightarrow>
          if status task \<noteq> Complete \<and> status task \<noteq> Error
          then (True,
                s\<lparr>aborted := (aborted s)(abortController task := True),
                  activeTasks := (activeTasks s)(taskId \<mapsto>
                    task\<lparr>status := Error, error := Some ''Task cancelled by user''\<rparr>)\<rparr>)
          else (False, s))"

section \<open>The event loop\<close>

text \<open>
  The server runs on one cooperative thread, so each of the following happens as a whole:
  a tool call up to its \<^verbatim>\<open>await\<close>; the outbound promise settling, with the
  continuation of \<^verbatim>\<open>complete\<close> and of the handler when the race is still open; a due
  timer's callback, with the same continuation when it is the timeout that settles the race;
  a call of \<^verbatim>\<open>cancelTask\<close> by the host; time passing. A timer never fires before it is
  due, and any due timer may be the next to fire. \<^verbatim>\<open>uuidv4()\<close> never returns an
  identifier twice. An event that cannot happen in the state has no successor.
\<close>

datatype event =
    CallTool string jsvalue
  | ApiResolve string Completion
  | ApiReject string js_error
  | TimerFire nat timer_cb
  | Advance nat
  | CancelTask string

text \<open>The handler returns: the race is settled and the reply recorded.\<close>

definition deliver :: "string \<Rightarrow> server \<times> (js_error + CompletionResponse) \<Rightarrow> server" where
  "deliver taskId x =
     (case x of
        (s, outcome) \<Rightarrow>
          (case invocations s taskId of
             None \<Rightarrow> s
           | Some i \<Rightarrow>
               s\<lparr>invocations := (invocations s)(taskId \<mapsto>
                    i\<lparr>race_settled := True,
                      reply := Some (handleCompleteTool_reply outcome)\<rparr>)\<rparr>))"

definition api_settle :: "server \<Rightarrow> string \<Rightarrow> invocation \<Rightarrow> server" where
  "api_settle s taskId i = s\<lparr>invocations := (invocations s)(taskId \<mapsto> i\<lparr>api_settled := True\<rparr>)\<rparr>"

fun fire :: "server \<Rightarrow> timer_cb \<Rightarrow> server" where
  "fire s (CleanupCb taskId) = s\<lparr>activeTasks := (activeTasks s)(taskId := None)\<rparr>"
| "fire s (TimeoutCb taskId) =
     (let s1 = timeout_callback s taskId
      in case invocations s1 taskId of
           None \<Rightarrow> s1
         | Some i \<Rightarrow>
             if race_settled i then s1
             else deliver taskId
                    (complete_rejected s1 taskId (abortController_l i) new_CompletionTimeoutError))"

fun step :: "server \<Rightarrow> event \<Rightarrow> server option" where
  "step s (CallTool uuid args) =
     (if invocations s uuid \<noteq> None then None
      else case handleCompleteTool_begin s uuid args of
             Inl e \<Rightarrow> Some s
           | Inr s1 \<Rightarrow> Some s1)"
| "step s (ApiResolve taskId response) =
     (case invocations s taskId of
        None \<Rightarrow> None
      | Some i \<Rightarrow>
          if api_settled i then None
          else if race_settled i then Some (api_settle s taskId i)
          else Some (deliver taskId
                       (complete_fulfilled (api_settle s taskId i) taskId (abortController_l i)
                          response)))"
| "step s (ApiReject taskId e) =
     (case invocations s taskId of
        None \<Rightarrow> None
      | Some i \<Rightarrow>
          if api_settled i then None
          else if race_settled i then Some (api_settle s taskId i)
          else Some (deliver taskId
                       (complete_rejected (api_settle s taskId i) taskId (abortController_l i) e)))"
| "step s (TimerFire due cb) =
     (if (due, cb) \<in> set (timers s) \<and> due \<le> now s
      then Some (fire (s\<lparr>timers := remove1 (due, cb) (timers s)\<rparr>) cb)
      else None)"
| "step s (Advance d) = Some (s\<lparr>now := now s + d\<rparr>)"
| "step s (CancelTask taskId) = Some (snd (cancelTask s taskId))"

fun run :: "server \<Rightarrow> event list \<Rightarrow> server option" where
  "run s [] = Some s"
| "run s (e # es) = (case step s e of None \<Rightarrow> None | Some s1 \<Rightarrow> run s1 es)"

section \<open>The validator as the specification words it\<close>

fun is_nonnull_object :: "jsvalue \<Rightarrow> bool" where
  "is_nonnull_object (JObject fs) = True"
| "is_nonnull_object (JArray xs) = True"
| "is_nonnull_object v = False"

fun is_string :: "jsvalue \<Rightarrow> bool" where
  "is_string (JString t) = True"
| "is_string v = False"

fun is_number :: "jsvalue \<Rightarrow> bool" where
  "is_number (JNumber n) = True"
| "is_number v = False"

definition present :: "jsvalue \<Rightarrow> string \<Rightarrow> bool" where
  "present v k = (get_prop v k \<noteq> JUndefined)"

text \<open>
  The contract in the specification's words: a non-null object whose prompt is text and
  whose five optional fields, where present, are numeric.
\<close>

definition spec_isValid :: "jsvalue \<Rightarrow> bool" where
  "spec_isValid v =
     (is_nonnull_object v \<and> is_string (get_prop v ''prompt'') \<and>
      (\<forall>p \<in> set [''max_tokens'', ''temperature'', ''top_p'', ''frequency_penalty'',
                  ''presence_penalty''].
         present v p \<longrightarrow> is_number (get_prop v p)))"

section \<open>Steps of the event loop, and what they preserve\<close>

text \<open>A task is finished when it is Complete or Error.\<close>

definition terminal :: "CompletionStatusEnum \<Rightarrow> bool" where
  "terminal st = (st = Complete \<or> st = Error)"

text \<open>
  The shapes a step can have: nothing changes; time passes; a task starts under a
  task id not used before; the outbound promise settles after the race; a task is
  marked with a finished status, by \<^verbatim>\<open>cancelTask\<close> or by the timeout callback after the
  race; the race settles, the task is marked, the removal is scheduled and the handler
  replies; a removal fires.
\<close>

inductive moves :: "server \<Rightarrow> server \<Rightarrow> bool" where
  idle: "moves s s"
| tick: "moves s (s\<lparr>now := now s + d\<rparr>)"
| start: "invocations s taskId = None \<Longrightarrow> moves s (complete_begin s taskId args)"
| late_api:
    "invocations s taskId = Some i \<Longrightarrow> race_settled i \<Longrightarrow>
     moves s (s\<lparr>invocations := (invocations s)(taskId \<mapsto> i\<lparr>api_settled := True\<rparr>)\<rparr>)"
| mark:
    "\<forall>t. terminal (status (f t)) \<Longrightarrow>
     (\<forall>i. invocations s taskId = Some i \<longrightarrow> race_settled i) \<or> ts = timers s \<Longrightarrow>
     set ts \<subseteq> set (timers s) \<Longrightarrow>
     \<forall>x \<in> set (timers s). x \<in> set ts \<or> (\<exists>d. x = (d, TimeoutCb taskId)) \<Longrightarrow>
     moves s (s\<lparr>aborted := ab, timers := ts,
                activeTasks := (activeTasks s)(taskId := map_option f (activeTasks s taskId))\<rparr>)"
| settle:
    "invocations s taskId = Some i \<Longrightarrow> \<not> race_settled i \<Longrightarrow>
     \<forall>t. terminal (status (f t)) \<Longrightarrow>
     set ts \<subseteq> set (timers s) \<Longrightarrow>
     \<forall>x \<in> set (timers s). x \<in> set ts \<or> (\<exists>d. x = (d, TimeoutCb taskId)) \<Longrightarrow>
     moves s (s\<lparr>timers := ts @ [(now s + COMPLETION_TIMEOUT_MS, CleanupCb taskId)],
                activeTasks := (activeTasks s)(taskId := map_option f (activeTasks s taskId)),
                invocations := (invocations s)(taskId \<mapsto>
                  i\<lparr>api_settled := b, race_settled := True, reply := Some r\<rparr>)\<rparr>)"
| cleanup:
    "(d, CleanupCb taskId) \<in> set (timers s) \<Longrightarrow> d \<le> now s \<Longrightarrow>
     moves s (s\<lparr>timers := remove1 (d, CleanupCb taskId) (timers s),
                activeTasks := (activeTasks s)(taskId := None)\<rparr>)"

text \<open>Facts that hold in every state the server reaches.\<close>

definition tasks_known :: "server \<Rightarrow> bool" where
  "tasks_known s = (\<forall>taskId. activeTasks s taskId \<noteq> None \<longrightarrow> invocations s taskId \<noteq> None)"

definition cleanup_after_settle :: "server \<Rightarrow> bool" where
  "cleanup_after_settle s =
     (\<forall>d taskId. (d, CleanupCb taskId) \<in> set (timers s) \<longrightarrow>
        (\<exists>i. invocations s taskId = Some i \<and> race_settled i))"

definition open_call_has_task :: "server \<Rightarrow> bool" where
  "open_call_has_task s =
     (\<forall>taskId i. invocations s taskId = Some i \<and> \<not> race_settled i \<longrightarrow>
        activeTasks s taskId \<noteq> None)"

definition live_task_has_open_call :: "server \<Rightarrow> bool" where
  "live_task_has_open_call s =
     (\<forall>taskId t. activeTasks s taskId = Some t \<and> \<not> terminal (status t) \<longrightarrow>
        (\<exists>i. invocations s taskId = Some i \<and> \<not> race_settled i))"

definition open_call_has_timeout :: "server \<Rightarrow> bool" where
  "open_call_has_timeout s =
     (\<forall>taskId i. invocations s taskId = Some i \<and> \<not> race_settled i \<longrightarrow>
        (\<exists>d. (d, TimeoutCb taskId) \<in> set (timers s) \<and> d \<le> now s + COMPLETION_TIMEOUT_MS))"

definition settled_task_has_cleanup :: "server \<Rightarrow> bool" where
  "settled_task_has_cleanup s =
     (\<forall>taskId i. invocations s taskId = Some i \<and> race_settled i \<and> activeTasks s taskId \<noteq> None \<longrightarrow>
        (\<exists>d. (d, CleanupCb taskId) \<in> set (timers s) \<and> d \<le> now s + COMPLETION_TIMEOUT_MS))"

definition api_after_race :: "server \<Rightarrow> bool" where
  "api_after_race s =
     (\<forall>taskId i. invocations s taskId = Some i \<and> api_settled i \<longrightarrow> race_settled i)"

definition inv :: "server \<Rightarrow> bool" where
  "inv s =
     (tasks_known s \<and> cleanup_after_settle s \<and> open_call_has_task s \<and>
      live_task_has_open_call s \<and> open_call_has_timeout s \<and> settled_task_has_cleanup s \<and>
      api_after_race s)"


text \<open>A task that is finished or removed, under an identifier that was handed out.\<close>

definition finished :: "string \<Rightarrow> server \<Rightarrow> bool" where
  "finished taskId s =
     (invocations s taskId \<noteq> None \<and>
      (\<forall>t. activeTasks s taskId = Some t \<longrightarrow> terminal (status t)))"


section \<open>Facts about the validator\<close>

lemma typeof_object: "(typeof v = ''object'' \<and> v \<noteq> JNull) = is_nonnull_object v"
  by (cases v) simp_all

lemma typeof_string: "(typeof v = ''string'') = is_string v"
  by (cases v) simp_all

lemma typeof_number: "(typeof v = ''number'') = is_number v"
  by (cases v) simp_all

lemma check_params_iff:
  "check_params c ps = (\<forall>p \<in> set ps. get_prop c p = JUndefined \<or> is_number (get_prop c p))"
  by (induction ps) (auto simp: typeof_number)

lemma isValid_iff:
  "isValidCompletionArgs v =
     (is_nonnull_object v \<and> is_string (get_prop v ''prompt'') \<and>
      (\<forall>p \<in> set optionalNumericParams. get_prop v p = JUndefined \<or> is_number (get_prop v p)))"
  unfolding isValidCompletionArgs_def check_params_iff
  using typeof_object [of v] typeof_string [of "get_prop v ''prompt''"] by auto

lemma get_prop_extra:
  "k' \<noteq> k \<Longrightarrow> get_prop (JObject (fs1 @ (k, x) # fs2)) k' = get_prop (JObject (fs1 @ fs2)) k'"
  by (simp add: map_add_def map_of_append split: option.splits)

text \<open>
  Claim C5. The validator returns true exactly for a non-null object whose prompt is a
  string and whose max_tokens, temperature, top_p, frequency_penalty and presence_penalty,
  when present, are numbers; a field of any other name, anywhere in the object, does not
  change the answer. The validator is a total function into the booleans: there is no input
  on which it raises.
\<close>

theorem validator_iff_spec:
  "isValidCompletionArgs v = spec_isValid v \<and>
   (\<forall>k x fs1 fs2. k \<notin> set (''prompt'' # optionalNumericParams) \<longrightarrow>
      isValidCompletionArgs (JObject (fs1 @ (k, x) # fs2)) =
      isValidCompletionArgs (JObject (fs1 @ fs2)))"
proof (intro conjI allI impI)
  show "isValidCompletionArgs v = spec_isValid v"
    unfolding isValid_iff spec_isValid_def present_def optionalNumericParams_def by auto
next
  fix k x fs1 fs2
  assume k: "k \<notin> set (''prompt'' # optionalNumericParams)"
  then have "\<And>k'. k' \<in> set (''prompt'' # optionalNumericParams) \<Longrightarrow>
      get_prop (JObject (fs1 @ (k, x) # fs2)) k' = get_prop (JObject (fs1 @ fs2)) k'"
    using get_prop_extra by metis
  then show "isValidCompletionArgs (JObject (fs1 @ (k, x) # fs2)) =
      isValidCompletionArgs (JObject (fs1 @ fs2))"
    unfolding isValid_iff by simp
qed

theorem validator_iff_spec_witness:
  "''n'' \<notin> set (''prompt'' # optionalNumericParams) \<and>
   isValidCompletionArgs
     (JObject ([(''prompt'', JString ''hi'')] @ (''n'', JNull) # [(''top_p'', JNumber 1)])) \<and>
   spec_isValid (JObject [(''prompt'', JString ''hi''), (''top_p'', JNumber 1)])"
proof -
  have n: "''n'' \<notin> set (''prompt'' # optionalNumericParams)"
    by (simp add: optionalNumericParams_def)
  have v: "isValidCompletionArgs (JObject [(''prompt'', JString ''hi''), (''top_p'', JNumber 1)])"
    by (simp add: isValidCompletionArgs_def optionalNumericParams_def)
  from validator_iff_spec [of "JObject [(''prompt'', JString ''hi''), (''top_p'', JNumber 1)]"]
       validator_iff_spec [of JNull, THEN conjunct2, rule_format, OF n,
          of "[(''prompt'', JString ''hi'')]" JNull "[(''top_p'', JNumber 1)]"]
       n v
  show ?thesis by simp
qed

section \<open>The start of a task\<close>

lemma complete_begin_eq:
  "complete_begin s taskId args =
     s\<lparr>next_controller := Suc (next_controller s),
       aborted := (aborted s)(next_controller s := False),
       activeTasks := (activeTasks s)(taskId \<mapsto>
          \<lparr>status = Processing, result = None, error = None, created_at = now s,
           timeout_at = now s + COMPLETION_TIMEOUT_MS, progress = 0,
           abortController = next_controller s\<rparr>),
       timers := timers s @ [(now s + COMPLETION_TIMEOUT_MS, TimeoutCb taskId)],
       invocations := (invocations s)(taskId \<mapsto>
          \<lparr>abortController_l = next_controller s,
           call =
             \<lparr>model_p = model s, prompt = get_prop args ''prompt'',
              max_tokens = js_default (get_prop args ''max_tokens'') (JNumber DEFAULT_MAX_TOKENS),
              temperature =
                js_default (get_prop args ''temperature'') (JNumber DEFAULT_TEMPERATURE),
              top_p = js_default (get_prop args ''top_p'') (JNumber DEFAULT_TOP_P),
              frequency_penalty =
                js_default (get_prop args ''frequency_penalty'')
                  (JNumber DEFAULT_FREQUENCY_PENALTY),
              presence_penalty =
                js_default (get_prop args ''presence_penalty'')
                  (JNumber DEFAULT_PRESENCE_PENALTY),
              signal = next_controller s\<rparr>,
           api_settled = False, race_settled = False, reply = None\<rparr>)\<rparr>"
  by (simp add: complete_begin_def complete_init_def complete_start_def Let_def
      createTimeoutPromise_def setTimeout_def makeApiCall_def)

lemmas DEFAULT_defs =
  DEFAULT_MAX_TOKENS_def DEFAULT_TEMPERATURE_def DEFAULT_TOP_P_def
  DEFAULT_FREQUENCY_PENALTY_def DEFAULT_PRESENCE_PENALTY_def

text \<open>
  Claim C6. For valid arguments the handler starts the task, and the outbound call it
  issues carries the configured model, the prompt, and for each optional parameter the
  caller's value, or the default when the parameter is absent: 150, 0.7, 1.0, 0.0 and 0.0.
  For the request with only the prompt "Once upon a time" the call carries exactly these
  five defaults.
\<close>

theorem defaults_substituted:
  "(isValidCompletionArgs args \<longrightarrow>
      handleCompleteTool_begin s uuid args = Inr (complete_begin s uuid args) \<and>
      map_option call (invocations (complete_begin s uuid args) uuid) =
        Some \<lparr>model_p = model s, prompt = get_prop args ''prompt'',
              max_tokens = (if get_prop args ''max_tokens'' = JUndefined then JNumber 150
                            else get_prop args ''max_tokens''),
              temperature = (if get_prop args ''temperature'' = JUndefined then JNumber 0.7
                             else get_prop args ''temperature''),
              top_p = (if get_prop args ''top_p'' = JUndefined then JNumber 1.0
                       else get_prop args ''top_p''),
              frequency_penalty = (if get_prop args ''frequency_penalty'' = JUndefined
                                   then JNumber 0.0 else get_prop args ''frequency_penalty''),
              presence_penalty = (if get_prop args ''presence_penalty'' = JUndefined
                                  then JNumber 0.0 else get_prop args ''presence_penalty''),
              signal = next_controller s\<rparr>) \<and>
   handleCompleteTool_begin s uuid (JObject [(''prompt'', JString ''Once upon a time'')]) =
     Inr (complete_begin s uuid (JObject [(''prompt'', JString ''Once upon a time'')])) \<and>
   map_option call
     (invocations (complete_begin s uuid (JObject [(''prompt'', JString ''Once upon a time'')]))
        uuid) =
     Some \<lparr>model_p = model s, prompt = JString ''Once upon a time'', max_tokens = JNumber 150,
           temperature = JNumber 0.7, top_p = JNumber 1.0, frequency_penalty = JNumber 0.0,
           presence_penalty = JNumber 0.0, signal = next_controller s\<rparr>"
proof (intro conjI impI)
  show "handleCompleteTool_begin s uuid (JObject [(''prompt'', JString ''Once upon a time'')]) =
     Inr (complete_begin s uuid (JObject [(''prompt'', JString ''Once upon a time'')]))"
    by (simp add: handleCompleteTool_begin_def isValidCompletionArgs_def
        optionalNumericParams_def)
  show "map_option call
     (invocations (complete_begin s uuid (JObject [(''prompt'', JString ''Once upon a time'')]))
        uuid) =
     Some \<lparr>model_p = model s, prompt = JString ''Once upon a time'', max_tokens = JNumber 150,
           temperature = JNumber 0.7, top_p = JNumber 1.0, frequency_penalty = JNumber 0.0,
           presence_penalty = JNumber 0.0, signal = next_controller s\<rparr>"
    by (simp add: complete_begin_eq js_default_def DEFAULT_defs)
qed (simp_all add: handleCompleteTool_begin_def complete_begin_eq js_default_def DEFAULT_defs)

theorem defaults_substituted_witness:
  "isValidCompletionArgs (JObject [(''prompt'', JString ''hi''), (''max_tokens'', JNumber 5)]) \<and>
   map_option call
     (invocations
        (complete_begin (init ''m'' 0) ''t1''
           (JObject [(''prompt'', JString ''hi''), (''max_tokens'', JNumber 5)])) ''t1'') =
     Some \<lparr>model_p = ''m'', prompt = JString ''hi'', max_tokens = JNumber 5,
           temperature = JNumber 0.7, top_p = JNumber 1.0, frequency_penalty = JNumber 0.0,
           presence_penalty = JNumber 0.0, signal = 0\<rparr>"
proof -
  have v: "isValidCompletionArgs (JObject [(''prompt'', JString ''hi''), (''max_tokens'', JNumber 5)])"
    by (simp add: isValidCompletionArgs_def optionalNumericParams_def)
  from defaults_substituted [of "JObject [(''prompt'', JString ''hi''), (''max_tokens'', JNumber 5)]"
         "init ''m'' 0" "''t1''"] v
  show ?thesis by (simp add: init_def)
qed

text \<open>
  Claim C8, as the code has it. The validator asks only that the prompt be a string: for a
  request whose prompt is the empty string (and whose optional fields are numbers or
  absent) validation succeeds, the handler raises no invalid-parameters error, the task is
  created and set to Processing, and the outbound call carries the empty prompt.
\<close>

theorem empty_prompt_accepted:
  assumes "is_nonnull_object args"
    and "get_prop args ''prompt'' = JString []"
    and "\<forall>p \<in> set optionalNumericParams. \<not> present args p \<or> is_number (get_prop args p)"
  shows "isValidCompletionArgs args \<and>
         handleCompleteTool_begin s uuid args = Inr (complete_begin s uuid args) \<and>
         map_option status (activeTasks (complete_begin s uuid args) uuid) = Some Processing \<and>
         map_option (\<lambda>i. prompt (call i)) (invocations (complete_begin s uuid args) uuid) =
           Some (JString [])"
proof -
  have v: "isValidCompletionArgs args"
    using assms unfolding isValid_iff present_def by simp
  then show ?thesis
    using assms(2) by (simp add: handleCompleteTool_begin_def complete_begin_eq)
qed

theorem empty_prompt_accepted_witness:
  "is_nonnull_object (JObject [(''prompt'', JString []), (''top_p'', JNumber 1)]) \<and>
   isValidCompletionArgs (JObject [(''prompt'', JString []), (''top_p'', JNumber 1)]) \<and>
   map_option status
     (activeTasks (complete_begin (init ''m'' 0) ''t1''
        (JObject [(''prompt'', JString []), (''top_p'', JNumber 1)])) ''t1'') = Some Processing"
proof -
  let ?a = "JObject [(''prompt'', JString []), (''top_p'', JNumber 1)]"
  have 1: "is_nonnull_object ?a" by simp
  have 2: "get_prop ?a ''prompt'' = JString []" by simp
  have 3: "\<forall>p \<in> set optionalNumericParams. \<not> present ?a p \<or> is_number (get_prop ?a p)"
    by (simp add: optionalNumericParams_def present_def)
  from empty_prompt_accepted [OF 1 2 3, of "init ''m'' 0" "''t1''"] 1
  show ?thesis by simp
qed

text \<open>
  The claim as it is written fails on the request whose only field is an empty prompt:
  the validator accepts it, the handler does not raise the invalid-parameters error, and
  the task is in the map, Processing.
\<close>

theorem empty_prompt_counterexample:
  "isValidCompletionArgs (JObject [(''prompt'', JString [])]) \<and>
   handleCompleteTool_begin (init ''m'' 0) ''t1'' (JObject [(''prompt'', JString [])]) =
     Inr (complete_begin (init ''m'' 0) ''t1'' (JObject [(''prompt'', JString [])])) \<and>
   map_option status
     (activeTasks (complete_begin (init ''m'' 0) ''t1'' (JObject [(''prompt'', JString [])])) ''t1'') =
     Some Processing"
  by (simp add: handleCompleteTool_begin_def isValidCompletionArgs_def optionalNumericParams_def
      complete_begin_eq)

section \<open>What each step does to the state\<close>

lemma timeout_callback_eq:
  "timeout_callback s taskId =
     s\<lparr>activeTasks := (activeTasks s)(taskId :=
          map_option (\<lambda>t. t\<lparr>status := Error, error := Some ''Completion timed out''\<rparr>)
            (activeTasks s taskId))\<rparr>"
  by (cases "activeTasks s taskId") (simp_all add: timeout_callback_def fun_upd_idem)

lemma complete_catch_eq:
  "complete_catch s taskId a e =
     (s\<lparr>activeTasks := (activeTasks s)(taskId :=
          map_option (\<lambda>t. t\<lparr>status := Error,
                            error := Some (if instanceof_Error e then message e
                                           else ''Unknown error'')\<rparr>)
            (activeTasks s taskId))\<rparr>,
      if instanceof_CompletionTimeoutError e \<or> instanceof_CompletionCancelledError e then e
      else if aborted s a then new_CompletionCancelledError
      else McpError InvalidRequest
             (''OpenAI API error: '' @ (if instanceof_Error e then message e else String_of e)))"
  by (cases "activeTasks s taskId") (simp_all add: complete_catch_def fun_upd_idem)

lemma complete_rejected_eq:
  "complete_rejected s taskId a e =
     (s\<lparr>activeTasks := (activeTasks s)(taskId :=
          map_option (\<lambda>t. t\<lparr>status := Error,
                            error := Some (if instanceof_Error e then message e
                                           else ''Unknown error'')\<rparr>)
            (activeTasks s taskId)),
        timers := timers s @ [(now s + COMPLETION_TIMEOUT_MS, CleanupCb taskId)]\<rparr>,
      Inl (if instanceof_CompletionTimeoutError e \<or> instanceof_CompletionCancelledError e then e
           else if aborted s a then new_CompletionCancelledError
           else McpError InvalidRequest
             (''OpenAI API error: '' @ (if instanceof_Error e then message e else String_of e))))"
  by (simp add: complete_rejected_def complete_catch_eq complete_finally_def setTimeout_def)

lemma complete_fulfilled_empty:
  "choices response = [] \<Longrightarrow>
   complete_fulfilled s taskId a response =
     complete_rejected s taskId a (OtherError ''TypeError'' undefined_read_message)"
  by (simp add: complete_fulfilled_def complete_rejected_def complete_try_def build_result_def)

lemma build_result_Cons:
  "choices response = c # cs \<Longrightarrow>
   build_result s response =
     Inr \<lparr>text_r = or_empty (text_c c), model_r = model s,
          finish_reason = or_undefined (finish_reason_c c),
          usage = usage_u response\<rparr>"
  by (cases "usage_u response") (simp_all add: build_result_def)

lemma complete_fulfilled_Cons:
  "choices response = c # cs \<Longrightarrow>
   complete_fulfilled s taskId a response =
     (s\<lparr>activeTasks := (activeTasks s)(taskId :=
          map_option (\<lambda>t. t\<lparr>status := Complete,
                            result := Some \<lparr>text_r = or_empty (text_c c), model_r = model s,
                                            finish_reason = or_undefined (finish_reason_c c),
                                            usage = usage_u response\<rparr>,
                            progress := 100\<rparr>)
            (activeTasks s taskId)),
        timers := timers s @ [(now s + COMPLETION_TIMEOUT_MS, CleanupCb taskId)]\<rparr>,
      Inr \<lparr>text_r = or_empty (text_c c), model_r = model s,
           finish_reason = or_undefined (finish_reason_c c),
           usage = usage_u response\<rparr>)"
  by (cases "activeTasks s taskId")
     (simp_all add: complete_fulfilled_def complete_try_def build_result_Cons
        complete_finally_def setTimeout_def fun_upd_idem)

lemma deliver_eq:
  "invocations s taskId = Some i \<Longrightarrow>
   deliver taskId (s, outcome) =
     s\<lparr>invocations := (invocations s)(taskId \<mapsto>
          i\<lparr>race_settled := True, reply := Some (handleCompleteTool_reply outcome)\<rparr>)\<rparr>"
  by (simp add: deliver_def)

lemma cancelTask_eq:
  "snd (cancelTask s taskId) =
     (case activeTasks s taskId of
        None \<Rightarrow> s
      | Some task \<Rightarrow>
          if terminal (status task) then s
          else s\<lparr>aborted := (aborted s)(abortController task := True),
                 activeTasks := (activeTasks s)(taskId :=
                   map_option (\<lambda>t. t\<lparr>status := Error, error := Some ''Task cancelled by user''\<rparr>)
                     (activeTasks s taskId))\<rparr>)"
  by (simp add: cancelTask_def terminal_def split: option.splits)

lemma api_settle_eq:
  "api_settle s taskId i = s\<lparr>invocations := (invocations s)(taskId \<mapsto> i\<lparr>api_settled := True\<rparr>)\<rparr>"
  by (simp add: api_settle_def)

lemma remove1_keeps: "x \<in> set xs \<Longrightarrow> x \<in> set (remove1 y xs) \<or> x = y"
  by (cases "x = y") simp_all

section \<open>Every step has one of the shapes\<close>

lemma moves_CallTool: "step s (CallTool uuid args) = Some s' \<Longrightarrow> moves s s'"
  by (auto simp: handleCompleteTool_begin_def split: if_splits intro: moves.idle moves.start)

lemma moves_Advance: "step s (Advance d) = Some s' \<Longrightarrow> moves s s'"
  by (auto intro: moves.tick)

lemma moves_CancelTask: "step s (CancelTask taskId) = Some s' \<Longrightarrow> moves s s'"
proof -
  assume "step s (CancelTask taskId) = Some s'"
  then have s': "s' = snd (cancelTask s taskId)" by simp
  show ?thesis
  proof (cases "activeTasks s taskId")
    case None
    then show ?thesis using s' by (simp add: cancelTask_eq moves.idle)
  next
    case (Some task)
    show ?thesis
    proof (cases "terminal (status task)")
      case True
      then show ?thesis using s' Some by (simp add: cancelTask_eq moves.idle)
    next
      case False
      let ?f = "\<lambda>t. t\<lparr>status := Error, error := Some ''Task cancelled by user''\<rparr>"
      have "moves s (s\<lparr>aborted := (aborted s)(abortController task := True), timers := timers s,
                activeTasks := (activeTasks s)(taskId := map_option ?f (activeTasks s taskId))\<rparr>)"
        by (rule moves.mark) (simp_all add: terminal_def)
      then show ?thesis using s' Some False by (simp add: cancelTask_eq)
    qed
  qed
qed

lemma moves_settled:
  assumes i: "invocations s taskId = Some i" and unsettled: "\<not> race_settled i"
    and f: "\<forall>t. terminal (status (f t))"
    and ts: "set ts \<subseteq> set (timers s)"
            "\<forall>x \<in> set (timers s). x \<in> set ts \<or> (\<exists>d. x = (d, TimeoutCb taskId))"
    and s': "s' = s\<lparr>timers := ts @ [(now s + COMPLETION_TIMEOUT_MS, CleanupCb taskId)],
                activeTasks := (activeTasks s)(taskId := map_option f (activeTasks s taskId)),
                invocations := (invocations s)(taskId \<mapsto>
                  i\<lparr>api_settled := b, race_settled := True, reply := Some r\<rparr>)\<rparr>"
  shows "moves s s'"
  unfolding s' using i unsettled f ts by (rule moves.settle)

lemma moves_ApiReject: "step s (ApiReject taskId e) = Some s' \<Longrightarrow> moves s s'"
proof -
  assume st: "step s (ApiReject taskId e) = Some s'"
  then obtain i where i: "invocations s taskId = Some i" and na: "\<not> api_settled i"
    by (auto split: option.splits if_splits)
  show ?thesis
  proof (cases "race_settled i")
    case True
    then show ?thesis using st i na by (auto simp: api_settle_eq intro: moves.late_api)
  next
    case False
    show ?thesis
      by (rule moves_settled [OF i False, where ts = "timers s" and b = True
            and f = "\<lambda>t. t\<lparr>status := Error,
                            error := Some (if instanceof_Error e then message e
                                           else ''Unknown error'')\<rparr>"
            and r = "handleCompleteTool_reply
                       (snd (complete_rejected (api_settle s taskId i) taskId (abortController_l i) e))"])
         (use st i na False in \<open>auto simp: api_settle_eq complete_rejected_eq deliver_eq terminal_def\<close>)
  qed
qed

lemma moves_ApiResolve: "step s (ApiResolve taskId response) = Some s' \<Longrightarrow> moves s s'"
proof -
  assume st: "step s (ApiResolve taskId response) = Some s'"
  then obtain i where i: "invocations s taskId = Some i" and na: "\<not> api_settled i"
    by (auto split: option.splits if_splits)
  show ?thesis
  proof (cases "race_settled i")
    case True
    then show ?thesis using st i na by (auto simp: api_settle_eq intro: moves.late_api)
  next
    case False
    show ?thesis
    proof (cases "choices response")
      case Nil
      show ?thesis
        by (rule moves_settled [OF i False, where ts = "timers s" and b = True
              and f = "\<lambda>t. t\<lparr>status := Error,
                              error := Some (if instanceof_Error (OtherError ''TypeError'' undefined_read_message)
                                             then message (OtherError ''TypeError'' undefined_read_message)
                                             else ''Unknown error'')\<rparr>"
              and r = "handleCompleteTool_reply
                         (snd (complete_fulfilled (api_settle s taskId i) taskId (abortController_l i)
                                 response))"])
           (use st i na False Nil in
             \<open>auto simp: api_settle_eq complete_fulfilled_empty complete_rejected_eq deliver_eq
                terminal_def\<close>)
    next
      case (Cons c cs)
      show ?thesis
        by (rule moves_settled [OF i False, where ts = "timers s" and b = True
              and f = "\<lambda>t. t\<lparr>status := Complete,
                            result := Some \<lparr>text_r = or_empty (text_c c), model_r = model s,
                                            finish_reason = or_undefined (finish_reason_c c),
                                            usage = usage_u response\<rparr>,
                            progress := 100\<rparr>"
              and r = "handleCompleteTool_reply
                         (snd (complete_fulfilled (api_settle s taskId i) taskId (abortController_l i)
                                 response))"])
           (use st i na False Cons in
             \<open>auto simp: api_settle_eq complete_fulfilled_Cons deliver_eq terminal_def\<close>)
    qed
  qed
qed

lemma moves_TimerFire: "step s (TimerFire due cb) = Some s' \<Longrightarrow> moves s s'"
proof -
  assume st: "step s (TimerFire due cb) = Some s'"
  then have mem: "(due, cb) \<in> set (timers s)" and due: "due \<le> now s"
    and s': "s' = fire (s\<lparr>timers := remove1 (due, cb) (timers s)\<rparr>) cb"
    by (auto split: if_splits)
  show ?thesis
  proof (cases cb)
    case (CleanupCb taskId)
    have "moves s (s\<lparr>timers := remove1 (due, CleanupCb taskId) (timers s),
                activeTasks := (activeTasks s)(taskId := None)\<rparr>)"
      using mem due unfolding CleanupCb by (rule moves.cleanup)
    then show ?thesis using s' CleanupCb by simp
  next
    case (TimeoutCb taskId)
    let ?g = "\<lambda>t. t\<lparr>status := Error, error := Some ''Completion timed out''\<rparr>"
    let ?ts = "remove1 (due, TimeoutCb taskId) (timers s)"
    have sub: "set ?ts \<subseteq> set (timers s)" by (rule set_remove1_subset)
    have keep: "\<forall>x \<in> set (timers s). x \<in> set ?ts \<or> (\<exists>d. x = (d, TimeoutCb taskId))"
      using remove1_keeps by fastforce
    have g: "\<forall>t. terminal (status (?g t))" by (simp add: terminal_def)
    show ?thesis
    proof (cases "\<exists>i. invocations s taskId = Some i \<and> \<not> race_settled i")
      case False
      then have "(\<forall>i. invocations s taskId = Some i \<longrightarrow> race_settled i) \<or> ?ts = timers s"
        by blast
      with g have "moves s (s\<lparr>aborted := aborted s, timers := ?ts,
                activeTasks := (activeTasks s)(taskId := map_option ?g (activeTasks s taskId))\<rparr>)"
        using sub keep by (rule moves.mark)
      moreover have "s' = s\<lparr>timers := ?ts,
                activeTasks := (activeTasks s)(taskId := map_option ?g (activeTasks s taskId))\<rparr>"
        using s' TimeoutCb False
        by (cases "invocations s taskId") (auto simp: timeout_callback_eq Let_def)
      ultimately show ?thesis by simp
    next
      case True
      then obtain i where i: "invocations s taskId = Some i" and o: "\<not> race_settled i"
        by blast
      let ?f = "\<lambda>t. (?g t)\<lparr>status := Error,
                    error := Some (if instanceof_Error new_CompletionTimeoutError
                                   then message new_CompletionTimeoutError
                                   else ''Unknown error'')\<rparr>"
      show ?thesis
        by (rule moves_settled [OF i o, where ts = ?ts and b = "api_settled i" and f = ?f
              and r = "handleCompleteTool_reply
                         (snd (complete_rejected (timeout_callback
                                 (s\<lparr>timers := remove1 (due, cb) (timers s)\<rparr>) taskId)
                                 taskId (abortController_l i) new_CompletionTimeoutError))"])
           (use s' TimeoutCb i o sub keep in
             \<open>auto simp: timeout_callback_eq complete_rejected_eq deliver_eq terminal_def Let_def
                option.map_comp comp_def\<close>)
    qed
  qed
qed

lemma step_moves: "step s e = Some s' \<Longrightarrow> moves s s'"
  by (cases e)
     (auto dest: moves_CallTool moves_ApiResolve moves_ApiReject moves_TimerFire moves_Advance
        moves_CancelTask simp del: step.simps)

text \<open>A property kept by every step is kept by every run.\<close>

lemma run_invariant:
  assumes "\<And>s e s'. Q s \<Longrightarrow> step s e = Some s' \<Longrightarrow> Q s'"
  shows "Q s \<Longrightarrow> run s es = Some s' \<Longrightarrow> Q s'"
  using assms by (induction es arbitrary: s) (auto split: option.splits)

section \<open>The invariants\<close>

lemma tasks_known_moves: "moves s s' \<Longrightarrow> tasks_known s \<Longrightarrow> tasks_known s'"
  by (induction rule: moves.induct) (auto simp: tasks_known_def complete_begin_eq)

lemma cleanup_after_settle_moves:
  "moves s s' \<Longrightarrow> cleanup_after_settle s \<Longrightarrow> cleanup_after_settle s'"
proof (induction rule: moves.induct)
  case (cleanup d taskId s)
  then show ?case
    unfolding cleanup_after_settle_def using set_remove1_subset by fastforce
qed (fastforce simp: cleanup_after_settle_def complete_begin_eq)+

lemma open_call_has_task_moves:
  "moves s s' \<Longrightarrow> cleanup_after_settle s \<Longrightarrow> open_call_has_task s \<Longrightarrow> open_call_has_task s'"
  by (induction rule: moves.induct)
     (fastforce simp: open_call_has_task_def cleanup_after_settle_def complete_begin_eq)+

lemma live_task_has_open_call_moves:
  "moves s s' \<Longrightarrow> live_task_has_open_call s \<Longrightarrow> live_task_has_open_call s'"
  by (induction rule: moves.induct)
     (fastforce simp: live_task_has_open_call_def complete_begin_eq terminal_def)+

lemma open_call_has_timeout_moves:
  "moves s s' \<Longrightarrow> open_call_has_timeout s \<Longrightarrow> open_call_has_timeout s'"
proof (induction rule: moves.induct)
  case (idle s)
  then show ?case by simp
next
  case (tick s d)
  then show ?case
    unfolding open_call_has_timeout_def by (fastforce intro: trans_le_add1)
next
  case (start s taskId args)
  show ?case
    unfolding open_call_has_timeout_def
  proof (intro allI impI)
    fix k i
    let ?s' = "complete_begin s taskId args"
    assume a: "invocations ?s' k = Some i \<and> \<not> race_settled i"
    show "\<exists>d. (d, TimeoutCb k) \<in> set (timers ?s') \<and> d \<le> now ?s' + COMPLETION_TIMEOUT_MS"
    proof (cases "k = taskId")
      case True
      then show ?thesis by (auto simp: complete_begin_eq)
    next
      case False
      with a have "invocations s k = Some i \<and> \<not> race_settled i"
        by (simp add: complete_begin_eq)
      with start.prems obtain d' where
        "(d', TimeoutCb k) \<in> set (timers s)" "d' \<le> now s + COMPLETION_TIMEOUT_MS"
        unfolding open_call_has_timeout_def by blast
      then show ?thesis by (auto simp: complete_begin_eq)
    qed
  qed
next
  case (late_api s taskId i)
  show ?case
    unfolding open_call_has_timeout_def
  proof (intro allI impI)
    fix k j
    let ?s' = "s\<lparr>invocations := (invocations s)(taskId \<mapsto> i\<lparr>api_settled := True\<rparr>)\<rparr>"
    assume a: "invocations ?s' k = Some j \<and> \<not> race_settled j"
    then have "\<exists>j'. invocations s k = Some j' \<and> \<not> race_settled j'"
      using late_api.hyps by (cases "k = taskId") auto
    with late_api.prems obtain d' where
      "(d', TimeoutCb k) \<in> set (timers s)" "d' \<le> now s + COMPLETION_TIMEOUT_MS"
      unfolding open_call_has_timeout_def by blast
    then show "\<exists>d. (d, TimeoutCb k) \<in> set (timers ?s') \<and>
        d \<le> now ?s' + COMPLETION_TIMEOUT_MS"
      by auto
  qed
next
  case (mark f s taskId ts ab)
  show ?case
    unfolding open_call_has_timeout_def
  proof (intro allI impI)
    fix k i
    let ?s' = "s\<lparr>aborted := ab, timers := ts,
                activeTasks := (activeTasks s)(taskId := map_option f (activeTasks s taskId))\<rparr>"
    assume a: "invocations ?s' k = Some i \<and> \<not> race_settled i"
    then have a': "invocations s k = Some i \<and> \<not> race_settled i" by simp
    with mark.prems obtain d' where
      d': "(d', TimeoutCb k) \<in> set (timers s)" "d' \<le> now s + COMPLETION_TIMEOUT_MS"
      unfolding open_call_has_timeout_def by blast
    have "(d', TimeoutCb k) \<in> set ts"
    proof (cases "k = taskId")
      case True
      with a' mark.hyps(2) have "ts = timers s" by auto
      with d'(1) show ?thesis by simp
    next
      case False
      with d'(1) mark.hyps(4) show ?thesis by fastforce
    qed
    with d'(2) show "\<exists>d. (d, TimeoutCb k) \<in> set (timers ?s') \<and>
        d \<le> now ?s' + COMPLETION_TIMEOUT_MS"
      by auto
  qed
next
  case (settle s taskId i f ts r b)
  show ?case
    unfolding open_call_has_timeout_def
  proof (intro allI impI)
    fix k j
    let ?s' = "s\<lparr>timers := ts @ [(now s + COMPLETION_TIMEOUT_MS, CleanupCb taskId)],
                activeTasks := (activeTasks s)(taskId := map_option f (activeTasks s taskId)),
                invocations := (invocations s)(taskId \<mapsto>
                  i\<lparr>api_settled := b, race_settled := True, reply := Some r\<rparr>)\<rparr>"
    assume a: "invocations ?s' k = Some j \<and> \<not> race_settled j"
    then have ne: "k \<noteq> taskId" by (auto split: if_splits)
    with a have "invocations s k = Some j \<and> \<not> race_settled j" by simp
    with settle.prems obtain d' where
      d': "(d', TimeoutCb k) \<in> set (timers s)" "d' \<le> now s + COMPLETION_TIMEOUT_MS"
      unfolding open_call_has_timeout_def by blast
    from d'(1) ne settle.hyps(5) have "(d', TimeoutCb k) \<in> set ts" by fastforce
    with d'(2) show "\<exists>d. (d, TimeoutCb k) \<in> set (timers ?s') \<and>
        d \<le> now ?s' + COMPLETION_TIMEOUT_MS"
      by auto
  qed
next
  case (cleanup d taskId s)
  show ?case
    unfolding open_call_has_timeout_def
  proof (intro allI impI)
    fix k i
    let ?s' = "s\<lparr>timers := remove1 (d, CleanupCb taskId) (timers s),
                  activeTasks := (activeTasks s)(taskId := None)\<rparr>"
    assume a: "invocations ?s' k = Some i \<and> \<not> race_settled i"
    with cleanup.prems obtain d' where
      d': "(d', TimeoutCb k) \<in> set (timers s)" "d' \<le> now s + COMPLETION_TIMEOUT_MS"
      unfolding open_call_has_timeout_def by fastforce
    from d'(1) have "(d', TimeoutCb k) \<in> set (remove1 (d, CleanupCb taskId) (timers s))"
      by (simp add: in_set_remove1)
    with d'(2) show "\<exists>da. (da, TimeoutCb k) \<in> set (timers ?s') \<and>
        da \<le> now ?s' + COMPLETION_TIMEOUT_MS"
      by auto
  qed
qed

lemma settled_task_has_cleanup_moves:
  "moves s s' \<Longrightarrow> settled_task_has_cleanup s \<Longrightarrow> settled_task_has_cleanup s'"
proof (induction rule: moves.induct)
  case (cleanup d taskId s)
  show ?case
    unfolding settled_task_has_cleanup_def
  proof (intro allI impI)
    fix k i
    let ?s' = "s\<lparr>timers := remove1 (d, CleanupCb taskId) (timers s),
                  activeTasks := (activeTasks s)(taskId := None)\<rparr>"
    assume a: "invocations ?s' k = Some i \<and> race_settled i \<and> activeTasks ?s' k \<noteq> None"
    then have ne: "k \<noteq> taskId" by (auto split: if_splits)
    with a cleanup.prems obtain d' where
      d': "(d', CleanupCb k) \<in> set (timers s)" "d' \<le> now s + COMPLETION_TIMEOUT_MS"
      unfolding settled_task_has_cleanup_def by fastforce
    from ne d'(1) have "(d', CleanupCb k) \<in> set (remove1 (d, CleanupCb taskId) (timers s))"
      by (simp add: in_set_remove1)
    with d'(2) show "\<exists>da. (da, CleanupCb k) \<in> set (timers ?s') \<and>
        da \<le> now ?s' + COMPLETION_TIMEOUT_MS"
      by auto
  qed
next
  case (tick s d)
  then show ?case
    unfolding settled_task_has_cleanup_def by (fastforce intro: trans_le_add1)
next
  case (idle s)
  then show ?case by simp
next
  case (start s taskId args)
  show ?case
    unfolding settled_task_has_cleanup_def
  proof (intro allI impI)
    fix k i
    let ?s' = "complete_begin s taskId args"
    assume a: "invocations ?s' k = Some i \<and> race_settled i \<and> activeTasks ?s' k \<noteq> None"
    then have ne: "k \<noteq> taskId" by (auto simp: complete_begin_eq)
    with a have "invocations s k = Some i \<and> race_settled i \<and> activeTasks s k \<noteq> None"
      by (simp add: complete_begin_eq)
    with start.prems obtain d' where
      d': "(d', CleanupCb k) \<in> set (timers s)" "d' \<le> now s + COMPLETION_TIMEOUT_MS"
      unfolding settled_task_has_cleanup_def by blast
    then show "\<exists>da. (da, CleanupCb k) \<in> set (timers ?s') \<and>
        da \<le> now ?s' + COMPLETION_TIMEOUT_MS"
      by (auto simp: complete_begin_eq)
  qed
next
  case (late_api s taskId i)
  show ?case
    unfolding settled_task_has_cleanup_def
  proof (intro allI impI)
    fix k j
    let ?s' = "s\<lparr>invocations := (invocations s)(taskId \<mapsto> i\<lparr>api_settled := True\<rparr>)\<rparr>"
    assume a: "invocations ?s' k = Some j \<and> race_settled j \<and> activeTasks ?s' k \<noteq> None"
    then have "\<exists>j'. invocations s k = Some j' \<and> race_settled j' \<and> activeTasks s k \<noteq> None"
      using late_api.hyps by (cases "k = taskId") auto
    with late_api.prems obtain d' where
      d': "(d', CleanupCb k) \<in> set (timers s)" "d' \<le> now s + COMPLETION_TIMEOUT_MS"
      unfolding settled_task_has_cleanup_def by blast
    then show "\<exists>da. (da, CleanupCb k) \<in> set (timers ?s') \<and>
        da \<le> now ?s' + COMPLETION_TIMEOUT_MS"
      by auto
  qed
next
  case (mark f s taskId ts ab)
  show ?case
    unfolding settled_task_has_cleanup_def
  proof (intro allI impI)
    fix k i
    let ?s' = "s\<lparr>aborted := ab, timers := ts,
                activeTasks := (activeTasks s)(taskId := map_option f (activeTasks s taskId))\<rparr>"
    assume a: "invocations ?s' k = Some i \<and> race_settled i \<and> activeTasks ?s' k \<noteq> None"
    then have "invocations s k = Some i \<and> race_settled i \<and> activeTasks s k \<noteq> None"
      by (auto split: if_splits)
    with mark.prems obtain d' where
      d': "(d', CleanupCb k) \<in> set (timers s)" "d' \<le> now s + COMPLETION_TIMEOUT_MS"
      unfolding settled_task_has_cleanup_def by blast
    from d'(1) mark.hyps(4) have "(d', CleanupCb k) \<in> set ts" by fastforce
    with d'(2) show "\<exists>da. (da, CleanupCb k) \<in> set (timers ?s') \<and>
        da \<le> now ?s' + COMPLETION_TIMEOUT_MS"
      by auto
  qed
next
  case (settle s taskId i f ts r b)
  show ?case
    unfolding settled_task_has_cleanup_def
  proof (intro allI impI)
    fix k j
    let ?s' = "s\<lparr>timers := ts @ [(now s + COMPLETION_TIMEOUT_MS, CleanupCb taskId)],
                activeTasks := (activeTasks s)(taskId := map_option f (activeTasks s taskId)),
                invocations := (invocations s)(taskId \<mapsto>
                  i\<lparr>api_settled := b, race_settled := True, reply := Some r\<rparr>)\<rparr>"
    assume a: "invocations ?s' k = Some j \<and> race_settled j \<and> activeTasks ?s' k \<noteq> None"
    show "\<exists>da. (da, CleanupCb k) \<in> set (timers ?s') \<and> da \<le> now ?s' + COMPLETION_TIMEOUT_MS"
    proof (cases "k = taskId")
      case True
      then show ?thesis by auto
    next
      case False
      with a have "invocations s k = Some j \<and> race_settled j \<and> activeTasks s k \<noteq> None"
        by auto
      with settle.prems obtain d' where
        d': "(d', CleanupCb k) \<in> set (timers s)" "d' \<le> now s + COMPLETION_TIMEOUT_MS"
        unfolding settled_task_has_cleanup_def by blast
      from d'(1) settle.hyps(5) have "(d', CleanupCb k) \<in> set ts" by fastforce
      with d'(2) show ?thesis by auto
    qed
  qed
qed

lemma api_after_race_moves: "moves s s' \<Longrightarrow> api_after_race s \<Longrightarrow> api_after_race s'"
  by (induction rule: moves.induct) (auto simp: api_after_race_def complete_begin_eq)

lemma inv_moves: "moves s s' \<Longrightarrow> inv s \<Longrightarrow> inv s'"
  unfolding inv_def
  using tasks_known_moves cleanup_after_settle_moves open_call_has_task_moves
    live_task_has_open_call_moves open_call_has_timeout_moves settled_task_has_cleanup_moves
    api_after_race_moves
  by blast

lemma inv_init: "inv (init m t0)"
  by (simp add: inv_def init_def tasks_known_def cleanup_after_settle_def open_call_has_task_def
      live_task_has_open_call_def open_call_has_timeout_def settled_task_has_cleanup_def
      api_after_race_def)

lemma inv_run: "inv s \<Longrightarrow> run s es = Some s' \<Longrightarrow> inv s'"
  by (rule run_invariant [where Q = inv]) (auto dest: step_moves inv_moves)

lemma inv_reachable: "run (init m t0) es = Some s \<Longrightarrow> inv s"
  using inv_init inv_run by blast



lemma finished_moves: "moves s s' \<Longrightarrow> finished taskId s \<Longrightarrow> finished taskId s'"
  by (induction rule: moves.induct) (auto simp: finished_def complete_begin_eq)

lemma finished_run: "finished taskId s \<Longrightarrow> run s es = Some s' \<Longrightarrow> finished taskId s'"
  by (rule run_invariant [where Q = "finished taskId"]) (auto dest: step_moves finished_moves)





section \<open>A first run: one tool call\<close>

lemma valid_hi: "isValidCompletionArgs (JObject [(''prompt'', JString ''hi'')])"
  by (simp add: isValidCompletionArgs_def optionalNumericParams_def)

lemmas trace_simps =
  init_def valid_hi handleCompleteTool_begin_def complete_begin_eq api_settle_eq
  complete_fulfilled_Cons complete_rejected_eq deliver_eq timeout_callback_eq
  handleCompleteTool_reply_def new_CompletionTimeoutError_def COMPLETION_TIMEOUT_MS_def

lemma run_CallTool_hi:
  "run (init ''m'' 0) [CallTool ''t1'' (JObject [(''prompt'', JString ''hi'')])] =
     Some (complete_begin (init ''m'' 0) ''t1'' (JObject [(''prompt'', JString ''hi'')]))"
  by (simp add: init_def handleCompleteTool_begin_def valid_hi)


section \<open>The outbound call resolves first\<close>









section \<open>Cancellation\<close>

lemma cancelTask_fst:
  "fst (cancelTask s taskId) \<longleftrightarrow>
     (\<exists>task. activeTasks s taskId = Some task \<and> \<not> terminal (status task))"
  by (auto simp: cancelTask_def terminal_def split: option.splits)

lemma not_terminal_iff: "\<not> terminal st \<longleftrightarrow> st = Pending \<or> st = Processing"
  by (cases st) (simp_all add: terminal_def)

text \<open>
  Claim C4. \<^verbatim>\<open>cancelTask\<close> returns true exactly when the map has the task with status
  Pending or Processing; it then sets the abort flag of the task's controller and marks
  the task Error with the message "Task cancelled by user". When it returns false the
  state is unchanged. A second call right after returns false, and so does every later
  call, whatever the server has done in between.
\<close>

theorem cancelTask_once:
  "(fst (cancelTask s taskId) \<longleftrightarrow>
      (\<exists>task. activeTasks s taskId = Some task \<and>
         (status task = Pending \<or> status task = Processing))) \<and>
   (\<forall>task. activeTasks s taskId = Some task \<and> fst (cancelTask s taskId) \<longrightarrow>
      aborted (snd (cancelTask s taskId)) (abortController task) \<and>
      activeTasks (snd (cancelTask s taskId)) taskId =
        Some (task\<lparr>status := Error, error := Some ''Task cancelled by user''\<rparr>)) \<and>
   (\<not> fst (cancelTask s taskId) \<longrightarrow> snd (cancelTask s taskId) = s) \<and>
   \<not> fst (cancelTask (snd (cancelTask s taskId)) taskId) \<and>
   (\<forall>m t0 es0 es s2.
      run (init m t0) es0 = Some s \<and> fst (cancelTask s taskId) \<and>
      run (snd (cancelTask s taskId)) es = Some s2 \<longrightarrow>
      \<not> fst (cancelTask s2 taskId))"
proof (intro conjI allI impI)
  show "fst (cancelTask s taskId) \<longleftrightarrow>
      (\<exists>task. activeTasks s taskId = Some task \<and>
         (status task = Pending \<or> status task = Processing))"
    unfolding cancelTask_fst not_terminal_iff ..
next
  fix task
  assume "activeTasks s taskId = Some task \<and> fst (cancelTask s taskId)"
  then show "aborted (snd (cancelTask s taskId)) (abortController task)"
    and "activeTasks (snd (cancelTask s taskId)) taskId =
        Some (task\<lparr>status := Error, error := Some ''Task cancelled by user''\<rparr>)"
    by (auto simp: cancelTask_def split: if_splits)
next
  assume "\<not> fst (cancelTask s taskId)"
  then show "snd (cancelTask s taskId) = s"
    by (auto simp: cancelTask_def split: option.splits if_splits)
next
  show "\<not> fst (cancelTask (snd (cancelTask s taskId)) taskId)"
    by (auto simp: cancelTask_def terminal_def split: option.splits)
next
  fix m t0 es0 es s2
  assume a: "run (init m t0) es0 = Some s \<and> fst (cancelTask s taskId) \<and>
      run (snd (cancelTask s taskId)) es = Some s2"
  then have "inv s" using inv_reachable by blast
  moreover from a have "activeTasks s taskId \<noteq> None"
    by (auto simp: cancelTask_fst)
  ultimately have "invocations s taskId \<noteq> None"
    unfolding inv_def tasks_known_def by blast
  then have "finished taskId (snd (cancelTask s taskId))"
    unfolding finished_def
    by (auto simp: cancelTask_def terminal_def split: option.splits if_splits)
  with a have "finished taskId s2" using finished_run by blast
  then show "\<not> fst (cancelTask s2 taskId)"
    unfolding finished_def cancelTask_fst by auto
qed

theorem cancelTask_once_witness:
  "fst (cancelTask (complete_begin (init ''m'' 0) ''t1'' (JObject [(''prompt'', JString ''hi'')]))
          ''t1'') \<and>
   map_option (\<lambda>t. (status t, error t))
     (activeTasks
        (snd (cancelTask
               (complete_begin (init ''m'' 0) ''t1'' (JObject [(''prompt'', JString ''hi'')]))
               ''t1'')) ''t1'') =
     Some (Error, Some ''Task cancelled by user'') \<and>
   \<not> fst (cancelTask
           (snd (cancelTask
                  (complete_begin (init ''m'' 0) ''t1'' (JObject [(''prompt'', JString ''hi'')]))
                  ''t1'')\<lparr>now := 5\<rparr>) ''t1'') \<and>
   \<not> fst (cancelTask (init ''m'' 0) ''t1'')"
proof -
  let ?s = "complete_begin (init ''m'' 0) ''t1'' (JObject [(''prompt'', JString ''hi'')])"
  have t: "activeTasks ?s ''t1'' =
      Some \<lparr>status = Processing, result = None, error = None, created_at = 0,
            timeout_at = COMPLETION_TIMEOUT_MS, progress = 0, abortController = 0\<rparr>"
    by (simp add: complete_begin_eq init_def)
  have n: "activeTasks (init ''m'' 0) ''t1'' = None" by (simp add: init_def)
  have c: "fst (cancelTask ?s ''t1'')" using t by (simp add: cancelTask_def)
  have r: "run (snd (cancelTask ?s ''t1'')) [Advance 5] =
             Some (snd (cancelTask ?s ''t1'')\<lparr>now := 5\<rparr>)"
    by (simp add: cancelTask_def complete_begin_eq init_def)
  note main = cancelTask_once [of ?s "''t1''"]
  from main t c have eff: "activeTasks (snd (cancelTask ?s ''t1'')) ''t1'' =
      Some \<lparr>status = Error, result = None, error = Some ''Task cancelled by user'',
            created_at = 0, timeout_at = COMPLETION_TIMEOUT_MS, progress = 0,
            abortController = 0\<rparr>"
    by simp
  from main have "run (init ''m'' 0) [CallTool ''t1'' (JObject [(''prompt'', JString ''hi'')])] = Some ?s \<and>
      fst (cancelTask ?s ''t1'') \<and>
      run (snd (cancelTask ?s ''t1'')) [Advance 5] = Some (snd (cancelTask ?s ''t1'')\<lparr>now := 5\<rparr>)
      \<longrightarrow> \<not> fst (cancelTask (snd (cancelTask ?s ''t1'')\<lparr>now := 5\<rparr>) ''t1'')"
    by blast
  with run_CallTool_hi c r
  have again: "\<not> fst (cancelTask (snd (cancelTask ?s ''t1'')\<lparr>now := 5\<rparr>) ''t1'')"
    by blast
  from cancelTask_once [of "init ''m'' 0" "''t1''"] n
  have absent: "\<not> fst (cancelTask (init ''m'' 0) ''t1'')" by simp
  from c eff again absent show ?thesis by simp
qed

section \<open>Removal from the registry\<close>








section \<open>The timer and the outbound call after the race\<close>

text \<open>
  Claim C1, on the code. One tool call; the outbound call resolves after 1000 ms; the
  timeout timer fires at 60000 ms, before the removal at 61000 ms. The task is created
  Pending, is Processing after the call has started, Complete after the response, and
  Error after the timer: the callback of the timer, which lost the race, overwrites the
  status of the finished task.
\<close>

theorem status_changes_after_complete:
  "status (fst (complete_init (init ''m'' 0) ''t1'')) = Pending \<and>
   map_option (\<lambda>s. map_option status (activeTasks s ''t1''))
     (run (init ''m'' 0) [CallTool ''t1'' (JObject [(''prompt'', JString ''hi'')])]) =
     Some (Some Processing) \<and>
   map_option (\<lambda>s. map_option status (activeTasks s ''t1''))
     (run (init ''m'' 0)
        [CallTool ''t1'' (JObject [(''prompt'', JString ''hi'')]),
         Advance 1000,
         ApiResolve ''t1''
           \<lparr>choices = [\<lparr>text_c = Some ''there'', finish_reason_c = Some ''stop''\<rparr>],
            usage_u = None\<rparr>]) =
     Some (Some Complete) \<and>
   map_option (\<lambda>s. map_option status (activeTasks s ''t1''))
     (run (init ''m'' 0)
        [CallTool ''t1'' (JObject [(''prompt'', JString ''hi'')]),
         Advance 1000,
         ApiResolve ''t1''
           \<lparr>choices = [\<lparr>text_c = Some ''there'', finish_reason_c = Some ''stop''\<rparr>],
            usage_u = None\<rparr>,
         Advance 59000,
         TimerFire 60000 (TimeoutCb ''t1'')]) =
     Some (Some Error)"
proof -
  have "status (fst (complete_init (init ''m'' 0) ''t1'')) = Pending"
    by (simp add: complete_init_def Let_def)
  then show ?thesis by (simp add: trace_simps)
qed

text \<open>
  Claim C7, on the code. After the same run the task has status Error, and holds both the
  result of the completion and the error message of the timer.
\<close>

theorem result_kept_with_error:
  "map_option (\<lambda>s. map_option (\<lambda>t. (status t, result t, error t)) (activeTasks s ''t1''))
     (run (init ''m'' 0)
        [CallTool ''t1'' (JObject [(''prompt'', JString ''hi'')]),
         Advance 1000,
         ApiResolve ''t1''
           \<lparr>choices = [\<lparr>text_c = Some ''there'', finish_reason_c = Some ''stop''\<rparr>],
            usage_u = None\<rparr>,
         Advance 59000,
         TimerFire 60000 (TimeoutCb ''t1'')]) =
     Some (Some (Error,
                 Some \<lparr>text_r = ''there'', model_r = ''m'', finish_reason = Some ''stop'',
                       usage = None\<rparr>,
                 Some ''Completion timed out''))"
  by (simp add: trace_simps or_empty_def or_undefined_def)

text \<open>
  Claim C3, on the code. One tool call; the timeout timer fires at 60000 ms with the
  outbound call still pending. The caller receives the friendly text, and the task is
  Error; but the message it keeps is the one of the \<^verbatim>\<open>CompletionTimeoutError\<close>, which the
  \<^verbatim>\<open>catch\<close> block writes over the "Completion timed out" of the timer's callback.
\<close>

theorem timeout_message_overwritten:
  "map_option (\<lambda>s. map_option (\<lambda>t. (status t, error t)) (activeTasks s ''t1''))
     (run (init ''m'' 0)
        [CallTool ''t1'' (JObject [(''prompt'', JString ''hi'')]),
         Advance 60000,
         TimerFire 60000 (TimeoutCb ''t1'')]) =
     Some (Some (Error, Some ''OpenAI API request timed out'')) \<and>
   map_option (\<lambda>s. map_option reply (invocations s ''t1''))
     (run (init ''m'' 0)
        [CallTool ''t1'' (JObject [(''prompt'', JString ''hi'')]),
         Advance 60000,
         TimerFire 60000 (TimeoutCb ''t1'')]) =
     Some (Some (Some (Content
       ''The completion request timed out. Please try again with a shorter prompt or fewer tokens.''))) \<and>
   map_option error
     (activeTasks
        (timeout_callback
           (complete_begin (init ''m'' 0) ''t1'' (JObject [(''prompt'', JString ''hi'')])) ''t1'')
        ''t1'') =
     Some (Some ''Completion timed out'')"
  by (simp add: trace_simps timeout_text_def)

end
